theory Spec2Isabelle
  imports Main
begin

section \<open>Bytes, constants and the library functions the program calls\<close>

text \<open>
  A Go \<open>[]byte\<close> and a Go \<open>string\<close> are both sequences of 8-bit bytes; HOL's
  \<open>char\<close> is an 8-bit byte, so both are \<open>char list\<close>.
\<close>

type_synonym bytes = "char list"

text \<open>\<open>const MAXLEN = 10 * 1024 * 1024\<close>. Go's \<open>len\<close> and \<open>int\<close> are signed.\<close>

definition MAXLEN :: int where
  "MAXLEN = 10 * 1024 * 1024"

subsection \<open>\<open>strconv.ParseInt(s, 10, 0)\<close>\<close>

text \<open>
  The standard library's parser, for base 10 and bit size 0 (the size of \<open>int\<close>,
  64 bits here). \<open>ParseUint\<close> accumulates in a \<open>uint64\<close>: the wrap-around of
  \<open>n + d\<close> is written out. A range error returns the clamped value, a syntax error
  returns 0.
\<close>

datatype num_error = ErrSyntax | ErrRange

definition IntSize :: nat where
  "IntSize = 64"

definition maxUint64 :: nat where
  "maxUint64 = 2 ^ 64 - 1"

definition isDigit :: "char \<Rightarrow> bool" where
  "isDigit c = (48 \<le> (of_char c :: nat) \<and> (of_char c :: nat) \<le> 57)"

definition digitVal :: "char \<Rightarrow> nat" where
  "digitVal c = (of_char c :: nat) - 48"

fun parseUintLoop :: "nat \<Rightarrow> bytes \<Rightarrow> nat \<times> num_error option" where
  "parseUintLoop n [] = (n, None)"
| "parseUintLoop n (c # cs) =
     (if \<not> isDigit c then (0, Some ErrSyntax)
      else if n \<ge> maxUint64 div 10 + 1 then (2 ^ IntSize - 1, Some ErrRange)
      else
        let m = n * 10;
            n1 = (m + digitVal c) mod 2 ^ 64
        in if n1 < m \<or> n1 > 2 ^ IntSize - 1 then (2 ^ IntSize - 1, Some ErrRange)
           else parseUintLoop n1 cs)"

definition ParseUint :: "bytes \<Rightarrow> nat \<times> num_error option" where
  "ParseUint s = (if s = [] then (0, Some ErrSyntax) else parseUintLoop 0 s)"

definition ParseInt :: "bytes \<Rightarrow> int \<times> num_error option" where
  "ParseInt s =
     (if s = [] then (0, Some ErrSyntax)
      else
        let neg = (hd s = CHR ''-'');
            s1 = (if hd s = CHR ''+'' \<or> hd s = CHR ''-'' then tl s else s);
            (un, err) = ParseUint s1
        in if err = Some ErrSyntax then (0, err)
           else
             let cutoff = (2 :: nat) ^ (IntSize - 1)
             in if \<not> neg \<and> un \<ge> cutoff then (int cutoff - 1, Some ErrRange)
                else if neg \<and> un > cutoff then (- int cutoff, Some ErrRange)
                else (if neg then - int un else int un, None))"

text \<open>The number a string of decimal digits denotes, read after \<open>n\<close>.\<close>

fun decimalValue :: "nat \<Rightarrow> bytes \<Rightarrow> nat" where
  "decimalValue n [] = n"
| "decimalValue n (c # cs) = decimalValue (n * 10 + digitVal c) cs"

subsection \<open>\<open>fmt.Sprintf("%d", n)\<close> for a length\<close>

definition digitChar :: "nat \<Rightarrow> char" where
  "digitChar d = ''0123456789'' ! d"

fun itoa :: "nat \<Rightarrow> bytes" where
  "itoa n = (if n < 10 then [digitChar n] else itoa (n div 10) @ [digitChar (n mod 10)])"

declare itoa.simps [simp del]

section \<open>The netstring codec\<close>

text \<open>
  The frame \<open>fixTest\<close> builds with \<open>fmt.Sprintf("%d:%s,", len(t), string(t))\<close>.
\<close>

definition encodeNetString :: "bytes \<Rightarrow> bytes" where
  "encodeNetString t = itoa (length t) @ '':'' @ t @ '',''"

text \<open>
  A \<open>bufio.Reader\<close> is the list of bytes it has still to deliver; the end of the list
  is the end of the stream. \<open>ReadBytes(delim)\<close> returns the bytes up to and including
  the delimiter, or what is left and an error when the stream ends first.
\<close>

fun ReadBytes :: "char \<Rightarrow> bytes \<Rightarrow> bytes \<times> bool \<times> bytes" where
  "ReadBytes d [] = ([], False, [])"
| "ReadBytes d (c # cs) =
     (if c = d then ([c], True, cs)
      else (case ReadBytes d cs of (line, ok, rest) \<Rightarrow> (c # line, ok, rest)))"

datatype ns_error =
    ReadLengthError
  | ProposedLengthTooLarge
  | ErrorParsingLength bytes
  | ErrorReadingData
  | MissingTerminator

datatype 'a outcome = Ok 'a | Err ns_error | Panic

text \<open>
  \<open>readNetString\<close> returns its result, the bytes the reader has still to deliver, and
  the sizes passed to \<open>make([]byte, n)\<close>. A negative size makes \<open>make\<close> panic.
\<close>

definition readNetString :: "bytes \<Rightarrow> bytes outcome \<times> bytes \<times> int list" where
  "readNetString r =
     (case ReadBytes CHR '':'' r of
        (lenBytes, ok, r1) \<Rightarrow>
          if \<not> ok then (Err ReadLengthError, r1, [])
          else
            let (i, err) = ParseInt (butlast lenBytes);
                dataLen = i
            in if dataLen > MAXLEN then (Err ProposedLengthTooLarge, r1, [])
               else if err \<noteq> None then (Err (ErrorParsingLength lenBytes), r1, [])
               else if dataLen < 0 then (Panic, r1, [dataLen])
               else if int (length r1) < dataLen then (Err ErrorReadingData, [], [dataLen])
               else
                 let data = take (nat dataLen) r1;
                     r2 = drop (nat dataLen) r1
                 in (case r2 of
                       [] \<Rightarrow> (Err MissingTerminator, [], [dataLen])
                     | b # r3 \<Rightarrow>
                         if b \<noteq> CHR '','' then (Err MissingTerminator, r3, [dataLen])
                         else (Ok data, r3, [dataLen])))"

subsection \<open>\<open>hex.EncodeToString\<close>\<close>

definition hexDigit :: "nat \<Rightarrow> char" where
  "hexDigit d = ''0123456789abcdef'' ! d"

definition hexEncodeToString :: "bytes \<Rightarrow> bytes" where
  "hexEncodeToString src =
     concat (map (\<lambda>b. [hexDigit ((of_char b :: nat) div 16), hexDigit ((of_char b :: nat) mod 16)]) src)"

subsection \<open>\<open>path.Join\<close> and \<open>path.Clean\<close>\<close>

text \<open>
  The standard library's \<open>path.Join\<close> drops the leading empty elements, joins the
  rest with slashes and cleans the result. \<open>path.Clean\<close> works element by element:
  empty elements and \<open>.\<close> are dropped, \<open>..\<close> removes the element before it (it is
  dropped at the root and kept at the front of a relative path), and an empty result
  is \<open>.\<close>.
\<close>

fun splitSlash :: "bytes \<Rightarrow> bytes list" where
  "splitSlash [] = [[]]"
| "splitSlash (c # cs) =
     (if c = CHR ''/'' then [] # splitSlash cs
      else (case splitSlash cs of [] \<Rightarrow> [[c]] | e # es \<Rightarrow> (c # e) # es))"

fun joinSlash :: "bytes list \<Rightarrow> bytes" where
  "joinSlash [] = []"
| "joinSlash [e] = e"
| "joinSlash (e # es) = e @ CHR ''/'' # joinSlash es"

text \<open>The second argument is the output so far, last element first.\<close>

fun cleanElems :: "bool \<Rightarrow> bytes list \<Rightarrow> bytes list \<Rightarrow> bytes list" where
  "cleanElems rooted out [] = rev out"
| "cleanElems rooted out (e # es) =
     (if e = [] \<or> e = ''.'' then cleanElems rooted out es
      else if e = ''..'' then
        (case out of
           [] \<Rightarrow> if rooted then cleanElems rooted out es else cleanElems rooted [''..''] es
         | p # ps \<Rightarrow>
             if p \<noteq> ''..'' then cleanElems rooted ps es
             else if rooted then cleanElems rooted out es
             else cleanElems rooted (''..'' # out) es)
      else cleanElems rooted (e # out) es)"

definition Clean :: "bytes \<Rightarrow> bytes" where
  "Clean p =
     (if p = [] then ''.''
      else
        let rooted = (hd p = CHR ''/'');
            body = joinSlash (cleanElems rooted [] (splitSlash p))
        in if rooted then CHR ''/'' # body
           else if body = [] then ''.'' else body)"

definition Join :: "bytes list \<Rightarrow> bytes" where
  "Join elem =
     (case dropWhile (\<lambda>e. e = []) elem of
        [] \<Rightarrow> []
      | es \<Rightarrow> Clean (joinSlash es))"

text \<open>
  A plain element is a name: not empty, no slash, neither \<open>.\<close> nor \<open>..\<close>. A plain
  path is one or more plain elements separated by single slashes, after an optional
  leading slash: a path \<open>path.Clean\<close> leaves as it is.
\<close>

definition plainElem :: "bytes \<Rightarrow> bool" where
  "plainElem e = (e \<noteq> [] \<and> CHR ''/'' \<notin> set e \<and> e \<noteq> ''.'' \<and> e \<noteq> ''..'')"

definition plainPath :: "bytes \<Rightarrow> bool" where
  "plainPath p =
     (p \<noteq> [] \<and> list_all plainElem (splitSlash (if hd p = CHR ''/'' then tl p else p)))"

section \<open>The world the program runs in\<close>

text \<open>The command-line flags.\<close>

record config =
  flagFn :: string
  flagDestDir :: string
  flagSrcDir :: string
  flagServer :: string
  flagFix :: string
  flagTimeout :: int

text \<open>
  A connection a peer serves: the bytes it delivers, and whether the stream then ends
  cleanly or with a read error.
\<close>

datatype conn = Conn bytes bool  \<comment> \<open>the bytes; \<open>True\<close>: a clean end of stream\<close>

datatype go_error =
    DialError
  | ReadError
  | WriteError
  | TimedOut
  | NetStringError ns_error

datatype arg = ErrArg go_error | StrArg string

text \<open>What the program does to the world, in order.\<close>

datatype event =
    Sleep int
  | Dial string string
  | WriteFile string bytes bool
  | RunTarget "string list"
  | LogPrintf string "arg list"
  | LogFatalf string "arg list"

text \<open>
  The fixer connection and its \<open>bufio.Reader\<close>: the bytes the fixer has still to
  deliver, and the bytes written to it so far.
\<close>

record fixconn =
  unread :: bytes
  sent :: bytes

text \<open>
  The state: for every network and address the outcomes of the dials to come
  (\<open>None\<close>: the dial fails; an empty list: every further dial fails), the events so
  far, and the variables \<open>count\<close> and \<open>fixConn\<close> of \<open>main\<close>.
\<close>

record state =
  net :: "string \<times> string \<Rightarrow> conn option list"
  trace :: "event list"
  count :: int
  fixConn :: "fixconn option"

text \<open>
  \<open>francis.Run\<close> returns a crash report and an error; the program reads a nil error
  as a crash and then reads \<open>ci.Extra[0]\<close>.
\<close>

datatype run_result = NoCrash | Crash "string list"

text \<open>
  What the program does not decide: the hash function, the verdict of the triage
  engine (from the command and everything that happened so far), and the paths on
  which \<open>ioutil.WriteFile\<close> fails.
\<close>

record env =
  sha1 :: "bytes \<Rightarrow> bytes"
  francisRun :: "string list \<Rightarrow> event list \<Rightarrow> run_result"
  writeFails :: "string \<Rightarrow> bool"

text \<open>
  A call returns a value, or ends the process through \<open>log.Fatalf\<close>, or panics.
\<close>

datatype 'a res = Ret 'a state | Fatal state | Panicked state

fun bind :: "'a res \<Rightarrow> ('a \<Rightarrow> state \<Rightarrow> 'b res) \<Rightarrow> 'b res" where
  "bind (Ret x s) f = f x s"
| "bind (Fatal s) f = Fatal s"
| "bind (Panicked s) f = Panicked s"

fun stateOf :: "'a res \<Rightarrow> state" where
  "stateOf (Ret x s) = s"
| "stateOf (Fatal s) = s"
| "stateOf (Panicked s) = s"

definition emit :: "event \<Rightarrow> state \<Rightarrow> state" where
  "emit e s = s\<lparr>trace := trace s @ [e]\<rparr>"

definition netDial :: "string \<Rightarrow> string \<Rightarrow> state \<Rightarrow> conn option \<times> state" where
  "netDial network address s =
     (let s1 = emit (Dial network address) s
      in case net s (network, address) of
           [] \<Rightarrow> (None, s1)
         | c # q \<Rightarrow> (c, s1\<lparr>net := (net s)((network, address) := q)\<rparr>))"

definition ioWriteFile :: "env \<Rightarrow> string \<Rightarrow> bytes \<Rightarrow> state \<Rightarrow> bool \<times> state" where
  "ioWriteFile e p d s = (\<not> writeFails e p, emit (WriteFile p d (\<not> writeFails e p)) s)"

section \<open>The resilient connector\<close>

definition Millisecond :: int where
  "Millisecond = 1000000"

definition Second :: int where
  "Second = 1000000000"

text \<open>A \<open>time.Duration\<close> is an \<open>int64\<close>: doubling wraps around.\<close>

definition wrap64 :: "int \<Rightarrow> int" where
  "wrap64 x = (x + 2 ^ 63) mod 2 ^ 64 - 2 ^ 63"

partial_function (option) sleepyLoop ::
  "string \<Rightarrow> int \<Rightarrow> state \<Rightarrow> ((go_error + conn) \<times> state) option" where
  "sleepyLoop dest zzz s =
     (if zzz > 1 * Second then Some (Inl TimedOut, s)
      else
        (case netDial ''tcp'' dest (emit (Sleep zzz) s) of
           (Some c, s1) \<Rightarrow> Some (Inr c, s1)
         | (None, s1) \<Rightarrow> sleepyLoop dest (wrap64 (zzz * 2)) s1))"

declare sleepyLoop.simps [code]

definition sleepyConnect :: "string \<Rightarrow> state \<Rightarrow> ((go_error + conn) \<times> state) option" where
  "sleepyConnect dest s = sleepyLoop dest (1 * Millisecond) s"

section \<open>Startup: which generator the program verifies\<close>

text \<open>
  \<open>main\<close> sets \<open>srvAddr\<close> to the local server it has launched when \<open>-src\<close> is
  given, and to \<open>-server\<close> otherwise; it then connects there with \<open>sleepyConnect\<close>
  and reads the stream to its end.
\<close>

definition srvAddr :: "config \<Rightarrow> string" where
  "srvAddr cfg = (if length (flagSrcDir cfg) > 0 then ''127.0.0.1:4141'' else flagServer cfg)"

definition connectServer :: "config \<Rightarrow> state \<Rightarrow> unit res option" where
  "connectServer cfg s =
     (case sleepyConnect (srvAddr cfg) s of
        None \<Rightarrow> None
      | Some (Inl er, s1) \<Rightarrow>
          Some (Fatal (emit (LogFatalf ''[SAD] Unable to connect to radamsa server: %s'' [ErrArg er]) s1))
      | Some (Inr (Conn d ok), s1) \<Rightarrow>
          if \<not> ok
          then Some (Fatal (emit (LogFatalf ''[SAD] Error reading from server: %s'' [ErrArg ReadError]) s1))
          else Some (Ret () (emit (LogPrintf ''[HAPPY] radamsa server is running...'' []) s1)))"

section \<open>The clients, the stager and the archive\<close>

definition getTest :: "env \<Rightarrow> state \<Rightarrow> (bytes \<times> bytes) res" where
  "getTest e s =
     (case netDial ''tcp'' ''127.0.0.1:4141'' s of
        (None, s1) \<Rightarrow>
          Fatal (emit (LogFatalf ''[SAD] Unable to connect to radamsa server: %s'' [ErrArg DialError]) s1)
      | (Some (Conn raw ok), s1) \<Rightarrow>
          if \<not> ok
          then Fatal (emit (LogFatalf ''[SAD] Error reading from server: %s'' [ErrArg ReadError]) s1)
          else Ret (raw, sha1 e raw) s1)"

definition stageTest :: "config \<Rightarrow> env \<Rightarrow> bytes \<Rightarrow> state \<Rightarrow> unit res" where
  "stageTest cfg e raw s =
     (case ioWriteFile e (Join [flagDestDir cfg, flagFn cfg]) raw s of
        (True, s1) \<Rightarrow> Ret () s1
      | (False, s1) \<Rightarrow>
          Fatal (emit (LogFatalf ''[SAD] failed to create test file: %s'' [ErrArg WriteError]) s1))"

text \<open>
  On a failed write \<open>saveTest\<close> calls \<open>hex.Dump(raw)\<close>, which returns the dump as a
  string, and drops the result: the call has no effect.
\<close>

definition saveTest :: "config \<Rightarrow> env \<Rightarrow> string \<Rightarrow> bytes \<Rightarrow> state \<Rightarrow> unit res" where
  "saveTest cfg e fn raw s =
     (case ioWriteFile e (Join [flagDestDir cfg, ''crashes'', fn]) raw s of
        (True, s1) \<Rightarrow> Ret () s1
      | (False, s1) \<Rightarrow>
          Fatal (emit (LogFatalf ''[SUPER SAD] (that hexdump was the last test)'' [])
                  (emit (LogPrintf ''[SUPER SAD] failed to write crashfile!: %s'' [ErrArg WriteError]) s1)))"

definition fixTest :: "bytes \<Rightarrow> fixconn \<Rightarrow> bytes outcome \<times> fixconn" where
  "fixTest t fc =
     (let fc1 = fc\<lparr>sent := sent fc @ encodeNetString t\<rparr>
      in case readNetString (unread fc1) of
           (r, rest, made) \<Rightarrow> (r, fc1\<lparr>unread := rest\<rparr>))"

section \<open>The main loop\<close>

text \<open>One pass through the body of the \<open>for\<close> loop of \<open>main\<close>.\<close>

definition iteration :: "config \<Rightarrow> env \<Rightarrow> string list \<Rightarrow> state \<Rightarrow> unit res" where
  "iteration cfg e testCmd s =
     bind (getTest e s) (\<lambda>(test, sha) s1.
       if int (length test) > MAXLEN then Ret () s1
       else
         bind
           (case fixConn s1 of
              None \<Rightarrow> Ret test s1
            | Some fc \<Rightarrow>
                (case fixTest test fc of
                   (Ok fixed, fc1) \<Rightarrow> Ret fixed (s1\<lparr>fixConn := Some fc1\<rparr>)
                 | (Err er, fc1) \<Rightarrow>
                     Fatal (emit (LogFatalf ''[SAD] failed to fix test: %s'' [ErrArg (NetStringError er)])
                             (s1\<lparr>fixConn := Some fc1\<rparr>))
                 | (Panic, fc1) \<Rightarrow> Panicked (s1\<lparr>fixConn := Some fc1\<rparr>)))
           (\<lambda>test1 s2.
              bind (stageTest cfg e test1 s2) (\<lambda>_ s3.
                let s4 = s3\<lparr>count := wrap64 (count s3 + 1)\<rparr>;
                    s5 = emit (RunTarget testCmd) s4
                in case francisRun e testCmd (trace s4) of
                     NoCrash \<Rightarrow> Ret () s5
                   | Crash extra \<Rightarrow>
                       (case extra of
                          [] \<Rightarrow> Panicked s5
                        | x # xs \<Rightarrow>
                            saveTest cfg e (hexEncodeToString sha @ ''.raw'') test1
                              (emit (LogPrintf ''[HAPPY] Crash! - %s'' [StrArg x]) s5)))))"

text \<open>
  The loop has no exit of its own: \<open>mainLoop n\<close> runs it for at most \<open>n\<close> passes,
  and \<open>Ret\<close> is the state of a loop still running.
\<close>

fun mainLoop :: "config \<Rightarrow> env \<Rightarrow> string list \<Rightarrow> nat \<Rightarrow> state \<Rightarrow> unit res" where
  "mainLoop cfg e testCmd 0 s = Ret () s"
| "mainLoop cfg e testCmd (Suc n) s =
     bind (iteration cfg e testCmd s) (\<lambda>_. mainLoop cfg e testCmd n)"

section \<open>Reading a trace\<close>

text \<open>The time slept, the dials made and the files written in a list of events.\<close>

fun sleptTotal :: "event list \<Rightarrow> int" where
  "sleptTotal [] = 0"
| "sleptTotal (Sleep d # es) = d + sleptTotal es"
| "sleptTotal (e # es) = sleptTotal es"

fun dialled :: "event list \<Rightarrow> (string \<times> string) list" where
  "dialled [] = []"
| "dialled (Dial n a # es) = (n, a) # dialled es"
| "dialled (e # es) = dialled es"

fun fileWrites :: "event list \<Rightarrow> (string \<times> bytes) list" where
  "fileWrites [] = []"
| "fileWrites (WriteFile p d ok # es) = (p, d) # fileWrites es"
| "fileWrites (e # es) = fileWrites es"

definition boundedWrites :: "event list \<Rightarrow> bool" where
  "boundedWrites es = list_all (\<lambda>w. int (length (snd w)) \<le> MAXLEN) (fileWrites es)"

text \<open>The contents written to the staged file \<open><dest>/<fn>\<close>.\<close>

definition stagedWrites :: "config \<Rightarrow> event list \<Rightarrow> bytes list" where
  "stagedWrites cfg es =
     map snd (filter (\<lambda>w. fst w = Join [flagDestDir cfg, flagFn cfg]) (fileWrites es))"

section \<open>Example runs\<close>

text \<open>
  A configuration without a fixer, one with a fixer and one with a remote generator;
  an environment whose hash is the identity, whose target always crashes and where
  every write succeeds, one where the crash file cannot be written; and the target
  command.
\<close>

definition exampleCfg :: config where
  "exampleCfg = \<lparr>flagFn = ''.cur_input'', flagDestDir = ''/w'', flagSrcDir = ''/corpus'',
     flagServer = '''', flagFix = '''', flagTimeout = - 1\<rparr>"

definition fixerCfg :: config where
  "fixerCfg = \<lparr>flagFn = ''.cur_input'', flagDestDir = ''/w'', flagSrcDir = ''/corpus'',
     flagServer = '''', flagFix = ''/tmp/fix.sock'', flagTimeout = - 1\<rparr>"

definition remoteCfg :: config where
  "remoteCfg = \<lparr>flagFn = ''.cur_input'', flagDestDir = ''/w'', flagSrcDir = '''',
     flagServer = ''192.168.1.1:4141'', flagFix = '''', flagTimeout = - 1\<rparr>"

definition exampleEnv :: env where
  "exampleEnv = \<lparr>sha1 = (\<lambda>b. b), francisRun = (\<lambda>c t. Crash [''SIGSEGV'']),
     writeFails = (\<lambda>p. False)\<rparr>"

definition fullDiskEnv :: env where
  "fullDiskEnv = \<lparr>sha1 = (\<lambda>b. b), francisRun = (\<lambda>c t. Crash [''SIGSEGV'']),
     writeFails = (\<lambda>p. p = ''/w/crashes/41.raw'')\<rparr>"

definition exampleCmd :: "string list" where
  "exampleCmd = [''/bin/target'', ''/w/.cur_input'']"

text \<open>
  The local generator serves the candidate \<open>A\<close>; the fixer, when there is one,
  replies \<open>AAAA\<close>.
\<close>

definition localGen :: "string \<times> string \<Rightarrow> conn option list" where
  "localGen k = (if k = (''tcp'', ''127.0.0.1:4141'') then [Some (Conn ''A'' True)] else [])"

definition fixerState :: state where
  "fixerState = \<lparr>net = localGen, trace = [], count = 0,
     fixConn = Some \<lparr>unread = ''4:AAAA,'', sent = []\<rparr>\<rparr>"

definition plainState :: state where
  "plainState = \<lparr>net = localGen, trace = [], count = 0, fixConn = None\<rparr>"

text \<open>
  The remote generator at \<open>192.168.1.1:4141\<close> serves its greeting and then
  candidates; nothing listens on this machine.
\<close>

definition remoteGen :: "string \<times> string \<Rightarrow> conn option list" where
  "remoteGen k =
     (if k = (''tcp'', ''192.168.1.1:4141'')
      then [Some (Conn ''hello'' True), Some (Conn ''ABCD'' True)] else [])"

definition remoteState :: state where
  "remoteState = \<lparr>net = remoteGen, trace = [], count = 0, fixConn = None\<rparr>"

section \<open>The netstring codec: proofs\<close>

lemma decimalValue_append: "decimalValue n (xs @ ys) = decimalValue (decimalValue n xs) ys"
  by (induction xs arbitrary: n) auto

lemma decimalValue_mono: "n \<le> decimalValue n cs"
proof (induction cs arbitrary: n)
  case Nil
  then show ?case by simp
next
  case (Cons c cs)
  have "n \<le> n * 10 + digitVal c" by simp
  also have "\<dots> \<le> decimalValue (n * 10 + digitVal c) cs" by (rule Cons.IH)
  finally show ?case by simp
qed

lemma digitVal_le: "isDigit c \<Longrightarrow> digitVal c \<le> 9"
  by (auto simp: isDigit_def digitVal_def)

lemma parseUintLoop_digits:
  "list_all isDigit cs \<Longrightarrow> n \<le> maxUint64 \<Longrightarrow>
   parseUintLoop n cs =
     (if decimalValue n cs \<le> maxUint64 then (decimalValue n cs, None) else (maxUint64, Some ErrRange))"
proof (induction cs arbitrary: n)
  case Nil
  then show ?case by simp
next
  case (Cons c cs)
  have d: "digitVal c \<le> 9" using Cons.prems by (simp add: digitVal_le)
  have dig: "isDigit c" "list_all isDigit cs" using Cons.prems by auto
  show ?case
  proof (cases "n \<ge> maxUint64 div 10 + 1")
    case True
    then have "n * 10 + digitVal c > maxUint64" by (simp add: maxUint64_def)
    moreover have "n * 10 + digitVal c \<le> decimalValue (n * 10 + digitVal c) cs" by (rule decimalValue_mono)
    ultimately show ?thesis using True dig by (simp add: IntSize_def maxUint64_def)
  next
    case False
    show ?thesis
    proof (cases "n * 10 + digitVal c \<le> maxUint64")
      case le: True
      then have m: "(n * 10 + digitVal c) mod 2 ^ 64 = n * 10 + digitVal c"
        by (simp add: maxUint64_def)
      show ?thesis using False dig le m Cons.IH[OF dig(2) le]
        by (simp add: IntSize_def Let_def maxUint64_def)
    next
      case gt: False
      then have ge: "n * 10 + digitVal c \<ge> 2 ^ 64" by (simp add: maxUint64_def)
      have lt: "n * 10 + digitVal c < 2 * 2 ^ 64" using False d by (simp add: maxUint64_def)
      have "(n * 10 + digitVal c) mod 2 ^ 64 = n * 10 + digitVal c - 2 ^ 64"
        using ge lt by (simp add: mod_if)
      then have w: "(n * 10 + digitVal c) mod 2 ^ 64 < n * 10" using d ge False
        by (simp add: maxUint64_def)
      have "n * 10 + digitVal c \<le> decimalValue (n * 10 + digitVal c) cs" by (rule decimalValue_mono)
      then have "\<not> decimalValue (n * 10 + digitVal c) cs \<le> maxUint64" using gt by simp
      then show ?thesis using False dig w
        by (simp add: IntSize_def Let_def maxUint64_def)
    qed
  qed
qed


lemma digit_cases:
  "(k::nat) < 10 \<Longrightarrow> k = 0 \<or> k = 1 \<or> k = 2 \<or> k = 3 \<or> k = 4 \<or> k = 5 \<or> k = 6 \<or> k = 7 \<or> k = 8 \<or> k = 9"
  by arith

lemma digitChar_props:
  assumes "k < 10"
  shows "isDigit (digitChar k)" and "digitVal (digitChar k) = k"
  using digit_cases[OF assms] by (auto simp: isDigit_def digitVal_def digitChar_def)

lemma decimalValue_itoa: "decimalValue 0 (itoa n) = n"
proof (induction n rule: itoa.induct)
  case (1 n)
  show ?case
  proof (cases "n < 10")
    case True
    then show ?thesis by (subst itoa.simps) (simp add: digitChar_props)
  next
    case False
    have "digitVal (digitChar (n mod 10)) = n mod 10"
      by (simp add: digitChar_props)
    then show ?thesis using False 1
      by (subst itoa.simps) (simp add: decimalValue_append)
  qed
qed

lemma itoa_digits: "list_all isDigit (itoa n)"
proof (induction n rule: itoa.induct)
  case (1 n)
  have d: "\<And>k. k < 10 \<Longrightarrow> isDigit (digitChar k)"
    by (simp add: digitChar_props)
  show ?case
  proof (cases "n < 10")
    case True
    then show ?thesis by (subst itoa.simps) (simp add: d)
  next
    case False
    then show ?thesis using 1 by (subst itoa.simps) (simp add: d)
  qed
qed

lemma itoa_nonempty: "itoa n \<noteq> []"
  by (subst itoa.simps) simp

lemma ReadBytes_delim:
  "d \<notin> set xs \<Longrightarrow> ReadBytes d (xs @ d # rest) = (xs @ [d], True, rest)"
  by (induction xs) auto

lemma isDigit_not_colon: "list_all isDigit xs \<Longrightarrow> CHR '':'' \<notin> set xs"
  by (induction xs) (auto simp: isDigit_def)


lemma ParseUint_digits:
  "ds \<noteq> [] \<Longrightarrow> list_all isDigit ds \<Longrightarrow>
   ParseUint ds = (if decimalValue 0 ds \<le> maxUint64 then (decimalValue 0 ds, None) else (maxUint64, Some ErrRange))"
  by (simp add: ParseUint_def parseUintLoop_digits)

lemma hd_digit: "ds \<noteq> [] \<Longrightarrow> list_all isDigit ds \<Longrightarrow> hd ds \<noteq> CHR ''-'' \<and> hd ds \<noteq> CHR ''+''"
  by (cases ds) (auto simp: isDigit_def)

lemma ParseInt_digits:
  assumes "ds \<noteq> []" "list_all isDigit ds"
  shows "ParseInt ds =
     (if decimalValue 0 ds < 2 ^ 63 then (int (decimalValue 0 ds), None) else (2 ^ 63 - 1, Some ErrRange))"
  using assms hd_digit[OF assms]
  by (auto simp: ParseInt_def ParseUint_digits Let_def IntSize_def maxUint64_def)

lemma ParseInt_neg_digits:
  assumes "ds \<noteq> []" "list_all isDigit ds"
  shows "ParseInt (CHR ''-'' # ds) =
     (if decimalValue 0 ds \<le> 2 ^ 63 then (- int (decimalValue 0 ds), None) else (- (2 ^ 63), Some ErrRange))"
  using assms
  by (auto simp: ParseInt_def ParseUint_digits Let_def IntSize_def maxUint64_def)


lemma readNetString_digits:
  assumes ne: "ds \<noteq> []" and dig: "list_all isDigit ds"
  shows "readNetString (ds @ CHR '':'' # r) =
     (if int (decimalValue 0 ds) > MAXLEN then (Err ProposedLengthTooLarge, r, [])
      else if length r < decimalValue 0 ds then (Err ErrorReadingData, [], [int (decimalValue 0 ds)])
      else (case drop (decimalValue 0 ds) r of
              [] \<Rightarrow> (Err MissingTerminator, [], [int (decimalValue 0 ds)])
            | b # r3 \<Rightarrow> if b \<noteq> CHR '','' then (Err MissingTerminator, r3, [int (decimalValue 0 ds)])
                        else (Ok (take (decimalValue 0 ds) r), r3, [int (decimalValue 0 ds)])))"
proof -
  have rb: "ReadBytes CHR '':'' (ds @ CHR '':'' # r) = (ds @ '':'', True, r)"
    using isDigit_not_colon[OF dig] by (simp add: ReadBytes_delim)
  show ?thesis
    unfolding readNetString_def rb
    by (simp add: ParseInt_digits[OF ne dig] MAXLEN_def Let_def)
qed

text \<open>
  C3. Decoding the frame \<open>fixTest\<close> builds for a byte sequence of at most
  \<open>MAXLEN\<close> bytes returns the sequence and leaves the reader right behind the frame;
  the frame of the empty sequence is \<open>0:,\<close>.
\<close>

theorem netstring_roundtrip:
  "int (length t) \<le> MAXLEN \<Longrightarrow>
   readNetString (encodeNetString t @ rest) = (Ok t, rest, [int (length t)]) \<and>
   encodeNetString [] = ''0:,''"
proof -
  assume a: "int (length t) \<le> MAXLEN"
  have "readNetString (itoa (length t) @ CHR '':'' # (t @ CHR '','' # rest))
        = (Ok t, rest, [int (length t)])"
    using a
    by (subst readNetString_digits) (simp_all add: itoa_nonempty itoa_digits decimalValue_itoa)
  then have "readNetString (encodeNetString t @ rest) = (Ok t, rest, [int (length t)])"
    by (simp add: encodeNetString_def)
  moreover have "encodeNetString [] = ''0:,''"
    by (simp add: encodeNetString_def itoa.simps digitChar_def)
  ultimately show ?thesis by simp
qed

theorem netstring_roundtrip_witness:
  "int (length ''hello'') \<le> MAXLEN \<and>
   readNetString (encodeNetString ''hello'' @ ''5:world,'') = (Ok ''hello'', ''5:world,'', [5]) \<and>
   int (length ([] :: bytes)) \<le> MAXLEN \<and>
   readNetString ''0:,'' = (Ok [], [], [0])"
proof -
  have h: "int (length ''hello'') \<le> MAXLEN" by (simp add: MAXLEN_def)
  have e: "int (length ([] :: bytes)) \<le> MAXLEN" by (simp add: MAXLEN_def)
  have a: "readNetString (encodeNetString ''hello'' @ ''5:world,'') = (Ok ''hello'', ''5:world,'', [5])"
    using netstring_roundtrip [OF h, of "''5:world,''"] by simp
  have b: "readNetString (encodeNetString [] @ []) = (Ok [], [], [int (length ([] :: bytes))])"
    and c: "encodeNetString [] = ''0:,''"
    using netstring_roundtrip [OF e, of "[]"] by blast+
  have "readNetString ''0:,'' = (Ok [], [], [0])"
    using b unfolding c by simp
  then show ?thesis using h e a by blast
qed

text \<open>
  C4. A frame that declares exactly \<open>MAXLEN\<close> bytes is decoded. A frame whose length
  prefix is a string of decimal digits denoting more than \<open>MAXLEN\<close> fails with the
  size error; the reader stands right behind the colon and \<open>make\<close> has not been
  called.
\<close>

theorem netstring_length_limit:
  "(int (length t) = MAXLEN \<longrightarrow>
      readNetString (encodeNetString t @ rest) = (Ok t, rest, [MAXLEN])) \<and>
   (ds \<noteq> [] \<and> list_all isDigit ds \<and> int (decimalValue 0 ds) > MAXLEN \<longrightarrow>
      readNetString (ds @ '':'' @ payload) = (Err ProposedLengthTooLarge, payload, []))"
proof (intro conjI impI)
  assume a: "int (length t) = MAXLEN"
  then have "readNetString (itoa (length t) @ CHR '':'' # (t @ CHR '','' # rest))
        = (Ok t, rest, [int (length t)])"
    by (subst readNetString_digits) (simp_all add: itoa_nonempty itoa_digits decimalValue_itoa)
  then show "readNetString (encodeNetString t @ rest) = (Ok t, rest, [MAXLEN])"
    using a by (simp add: encodeNetString_def)
next
  assume b: "ds \<noteq> [] \<and> list_all isDigit ds \<and> int (decimalValue 0 ds) > MAXLEN"
  then show "readNetString (ds @ '':'' @ payload) = (Err ProposedLengthTooLarge, payload, [])"
    by (simp add: readNetString_digits)
qed

theorem netstring_length_limit_witness:
  "int (length (replicate 10485760 CHR ''A'')) = MAXLEN \<and>
   readNetString (encodeNetString (replicate 10485760 CHR ''A'') @ ''next'')
     = (Ok (replicate 10485760 CHR ''A''), ''next'', [MAXLEN]) \<and>
   ''10485761'' \<noteq> [] \<and> list_all isDigit ''10485761'' \<and>
   int (decimalValue 0 ''10485761'') > MAXLEN \<and>
   readNetString (''10485761'' @ '':'' @ ''payload'') = (Err ProposedLengthTooLarge, ''payload'', [])"
proof -
  have h1: "int (length (replicate 10485760 CHR ''A'')) = MAXLEN"
    by (simp add: MAXLEN_def)
  have h2: "''10485761'' \<noteq> [] \<and> list_all isDigit ''10485761'' \<and>
            int (decimalValue 0 ''10485761'') > MAXLEN"
    by (simp add: isDigit_def digitVal_def MAXLEN_def)
  show ?thesis
    using h1 h2
      netstring_length_limit [of "replicate 10485760 CHR ''A''" "''next''" "''10485761''" "''payload''"]
    by blast
qed

text \<open>
  C5. A length prefix that is a minus sign and decimal digits denoting a number from
  1 to \<open>2 ^ 63\<close> parses without error as a negative number: it passes both checks,
  and \<open>make([]byte, dataLen)\<close> panics. No error is returned.
\<close>

theorem netstring_negative_length_panics:
  "ds \<noteq> [] \<and> list_all isDigit ds \<and> 0 < decimalValue 0 ds \<and> decimalValue 0 ds \<le> 2 ^ 63 \<Longrightarrow>
   readNetString (''-'' @ ds @ '':'' @ payload) = (Panic, payload, [- int (decimalValue 0 ds)])"
proof -
  assume a: "ds \<noteq> [] \<and> list_all isDigit ds \<and> 0 < decimalValue 0 ds \<and> decimalValue 0 ds \<le> 2 ^ 63"
  have c: "CHR '':'' \<notin> set (CHR ''-'' # ds)"
    using a isDigit_not_colon by auto
  have rb: "ReadBytes CHR '':'' ((CHR ''-'' # ds) @ CHR '':'' # payload)
            = ((CHR ''-'' # ds) @ '':'', True, payload)"
    using c by (rule ReadBytes_delim)
  have p: "ParseInt (CHR ''-'' # ds) = (- int (decimalValue 0 ds), None)"
    using a by (simp add: ParseInt_neg_digits)
  show ?thesis
    using rb p a by (simp add: readNetString_def MAXLEN_def)
qed

theorem netstring_negative_length_panics_witness:
  "''5'' \<noteq> [] \<and> list_all isDigit ''5'' \<and> 0 < decimalValue 0 ''5'' \<and> decimalValue 0 ''5'' \<le> 2 ^ 63 \<and>
   readNetString ''-5:hello,'' = (Panic, ''hello,'', [- 5])"
proof -
  have h: "''5'' \<noteq> [] \<and> list_all isDigit ''5'' \<and> 0 < decimalValue 0 ''5'' \<and> decimalValue 0 ''5'' \<le> 2 ^ 63"
    by (simp add: isDigit_def digitVal_def)
  have v: "decimalValue 0 ''5'' = 5" by (simp add: digitVal_def)
  show ?thesis
    using h netstring_negative_length_panics [OF h, of "''hello,''"] v by simp
qed
section \<open>The resilient connector: proofs\<close>

lemma netDial_refused:
  assumes "set (net s (n, a)) \<subseteq> {None}"
  shows "netDial n a s =
           (None, s\<lparr>trace := trace s @ [Dial n a], net := (net s)((n, a) := tl (net s (n, a)))\<rparr>)"
proof (cases "net s (n, a)")
  case Nil
  then have "(net s)((n, a) := tl (net s (n, a))) = net s" by (simp add: fun_upd_idem_iff)
  then show ?thesis using Nil by (simp add: netDial_def emit_def)
next
  case (Cons c q)
  then have "c = None" using assms by auto
  then show ?thesis using Cons by (simp add: netDial_def emit_def)
qed

lemma backoff_double:
  assumes "k < 10"
  shows "wrap64 (2 ^ k * Millisecond * 2) = 2 ^ Suc k * Millisecond"
    and "\<not> 2 ^ k * Millisecond > 1 * Second"
proof -
  have "(2::int) ^ k \<le> 2 ^ 9" using assms by (intro power_increasing) auto
  then have b: "(2::int) ^ k \<le> 512" by simp
  have p: "(0::int) < 2 ^ k" by simp
  show "\<not> 2 ^ k * Millisecond > 1 * Second"
    using b by (simp add: Millisecond_def Second_def)
  have "0 \<le> 2 ^ k * Millisecond * 2 + (2::int) ^ 63"
    using p by (simp add: Millisecond_def)
  moreover have "2 ^ k * Millisecond * 2 + (2::int) ^ 63 < 2 ^ 64"
    using b by (simp add: Millisecond_def)
  ultimately have "(2 ^ k * Millisecond * 2 + (2::int) ^ 63) mod 2 ^ 64
                   = 2 ^ k * Millisecond * 2 + 2 ^ 63"
    by (rule mod_pos_pos_trivial)
  then show "wrap64 (2 ^ k * Millisecond * 2) = 2 ^ Suc k * Millisecond"
    by (simp add: wrap64_def)
qed

text \<open>
  The loop entered with the delay \<open>2 ^ k\<close> ms against an address that refuses every
  dial: it sleeps and dials for the delays \<open>2 ^ k, \<dots>, 2 ^ 9\<close> ms and gives up.
\<close>

lemma sleepyLoop_refused:
  assumes "k \<le> 10" and "set (net s (''tcp'', dest)) \<subseteq> {None}"
  shows "sleepyLoop dest (2 ^ k * Millisecond) s =
           Some (Inl TimedOut,
                 s\<lparr>trace := trace s @
                        concat (map (\<lambda>j. [Sleep (2 ^ j * Millisecond), Dial ''tcp'' dest]) [k..<10]),
                   net := (net s)((''tcp'', dest) := drop (10 - k) (net s (''tcp'', dest)))\<rparr>)"
  using assms
proof (induction "10 - k" arbitrary: k s)
  case 0
  then have k: "k = 10" by simp
  have "(net s)((''tcp'', dest) := net s (''tcp'', dest)) = net s" by simp
  then show ?case
    unfolding k by (subst sleepyLoop.simps) (simp add: Millisecond_def Second_def)
next
  case (Suc d)
  then have k: "k < 10" and d: "d = 10 - Suc k" by simp_all
  let ?q = "net s (''tcp'', dest)"
  let ?s0 = "emit (Sleep (2 ^ k * Millisecond)) s"
  let ?s1 = "?s0\<lparr>trace := trace ?s0 @ [Dial ''tcp'' dest],
                  net := (net ?s0)((''tcp'', dest) := tl (net ?s0 (''tcp'', dest)))\<rparr>"
  have r0: "set (net ?s0 (''tcp'', dest)) \<subseteq> {None}"
    using Suc.prems(2) by (simp add: emit_def)
  have dial: "netDial ''tcp'' dest ?s0 = (None, ?s1)"
    by (rule netDial_refused [OF r0])
  have r1: "set (net ?s1 (''tcp'', dest)) \<subseteq> {None}"
    using Suc.prems(2) by (cases ?q) (auto simp: emit_def)
  have ih: "sleepyLoop dest (2 ^ Suc k * Millisecond) ?s1 =
           Some (Inl TimedOut,
                 ?s1\<lparr>trace := trace ?s1 @
                        concat (map (\<lambda>j. [Sleep (2 ^ j * Millisecond), Dial ''tcp'' dest]) [Suc k..<10]),
                   net := (net ?s1)((''tcp'', dest) := drop (10 - Suc k) (net ?s1 (''tcp'', dest)))\<rparr>)"
    using Suc.hyps(1) [OF d _ r1] k by simp
  have step: "sleepyLoop dest (2 ^ k * Millisecond) s = sleepyLoop dest (2 ^ Suc k * Millisecond) ?s1"
    by (subst sleepyLoop.simps) (simp only: backoff_double [OF k] dial if_False prod.case option.case)
  have upt: "[k..<10] = k # [Suc k..<10]" using k by (simp add: upt_conv_Cons)
  have "10 - k = Suc (9 - k)" using k by simp
  then have dr: "drop (9 - k) (tl ?q) = drop (10 - k) ?q"
    by (simp only: drop_Suc)
  show ?case
    unfolding step ih upt by (simp add: emit_def dr)
qed

text \<open>
  Whatever the peer does, the loop returns: a dial succeeds, or the delay passes one
  second at the eleventh turn.
\<close>

lemma sleepyLoop_returns:
  "k \<le> 10 \<Longrightarrow> \<exists>r. sleepyLoop dest (2 ^ k * Millisecond) s = Some r"
proof (induction "10 - k" arbitrary: k s)
  case 0
  then have k: "k = 10" by simp
  show ?case
    unfolding k by (subst sleepyLoop.simps) (simp add: Millisecond_def Second_def)
next
  case (Suc d)
  then have k: "k < 10" and d: "d = 10 - Suc k" by simp_all
  obtain c s1 where n: "netDial ''tcp'' dest (emit (Sleep (2 ^ k * Millisecond)) s) = (c, s1)"
    by (cases "netDial ''tcp'' dest (emit (Sleep (2 ^ k * Millisecond)) s)") auto
  show ?case
  proof (cases c)
    case None
    have "sleepyLoop dest (2 ^ k * Millisecond) s = sleepyLoop dest (2 ^ Suc k * Millisecond) s1"
      using None
      by (subst sleepyLoop.simps) (simp only: backoff_double [OF k] n if_False prod.case option.case)
    then show ?thesis
      using Suc.hyps(1) [OF d, of s1] k by simp
  next
    case (Some cn)
    have "sleepyLoop dest (2 ^ k * Millisecond) s = Some (Inr cn, s1)"
      using Some
      by (subst sleepyLoop.simps) (simp only: backoff_double [OF k] n if_False prod.case option.case)
    then show ?thesis by simp
  qed
qed

lemma sleepyConnect_returns: "\<exists>r. sleepyConnect dest s = Some r"
  using sleepyLoop_returns [of 0 dest s] by (simp add: sleepyConnect_def)

text \<open>
  C6. Against an address where every dial fails, \<open>sleepyConnect\<close> returns, with the
  time-out error, after ten dials, each after a sleep: 1 ms, then twice the sleep
  before, up to 512 ms, 1023 ms in all. The eleventh delay, 1024 ms, is over one
  second and ends the loop.
\<close>

theorem sleepyConnect_refused_times_out:
  "set (net s (''tcp'', dest)) \<subseteq> {None} \<Longrightarrow>
   (\<exists>s1. sleepyConnect dest s = Some (Inl TimedOut, s1) \<and>
      trace s1 = trace s @
        [Sleep (1 * Millisecond), Dial ''tcp'' dest, Sleep (2 * Millisecond), Dial ''tcp'' dest,
         Sleep (4 * Millisecond), Dial ''tcp'' dest, Sleep (8 * Millisecond), Dial ''tcp'' dest,
         Sleep (16 * Millisecond), Dial ''tcp'' dest, Sleep (32 * Millisecond), Dial ''tcp'' dest,
         Sleep (64 * Millisecond), Dial ''tcp'' dest, Sleep (128 * Millisecond), Dial ''tcp'' dest,
         Sleep (256 * Millisecond), Dial ''tcp'' dest, Sleep (512 * Millisecond), Dial ''tcp'' dest] \<and>
      sleptTotal (drop (length (trace s)) (trace s1)) = 1023 * Millisecond \<and>
      length (dialled (drop (length (trace s)) (trace s1))) = 10 \<and>
      1024 * Millisecond > 1 * Second)"
proof -
  assume a: "set (net s (''tcp'', dest)) \<subseteq> {None}"
  have u: "[0..<10] = [0, 1, 2, 3, 4, 5, 6, 7, 8, 9]"
    by (simp add: upt_rec)
  have "sleepyLoop dest (2 ^ 0 * Millisecond) s =
           Some (Inl TimedOut,
                 s\<lparr>trace := trace s @
                        concat (map (\<lambda>j. [Sleep (2 ^ j * Millisecond), Dial ''tcp'' dest]) [0..<10]),
                   net := (net s)((''tcp'', dest) := drop (10 - 0) (net s (''tcp'', dest)))\<rparr>)"
    by (rule sleepyLoop_refused [OF _ a]) simp
  then show ?thesis
    unfolding u by (simp add: sleepyConnect_def Millisecond_def Second_def)
qed

theorem sleepyConnect_refused_times_out_witness:
  "set (net \<lparr>net = (\<lambda>k. []), trace = [], count = 0, fixConn = None\<rparr> (''tcp'', ''10.0.0.1:4141'')) \<subseteq> {None} \<and>
   (\<exists>s1. sleepyConnect ''10.0.0.1:4141'' \<lparr>net = (\<lambda>k. []), trace = [], count = 0, fixConn = None\<rparr>
            = Some (Inl TimedOut, s1) \<and>
      sleptTotal (trace s1) = 1023000000 \<and>
      length (dialled (trace s1)) = 10)"
proof -
  let ?s = "\<lparr>net = (\<lambda>k. []), trace = [], count = 0, fixConn = None\<rparr>"
  have h: "set (net ?s (''tcp'', ''10.0.0.1:4141'')) \<subseteq> {None}" by simp
  obtain s1 where "sleepyConnect ''10.0.0.1:4141'' ?s = Some (Inl TimedOut, s1)"
    and "sleptTotal (drop (length (trace ?s)) (trace s1)) = 1023 * Millisecond"
    and "length (dialled (drop (length (trace ?s)) (trace s1))) = 10"
    using sleepyConnect_refused_times_out [OF h] by blast
  then show ?thesis using h by (auto simp: Millisecond_def)
qed

section \<open>Paths: proofs\<close>

lemma splitSlash_nonempty: "splitSlash p \<noteq> []"
  by (induction p) (auto split: list.splits)

lemma splitSlash_noslash: "CHR ''/'' \<notin> set e \<Longrightarrow> splitSlash e = [e]"
  by (induction e) auto

lemma splitSlash_append: "splitSlash (a @ CHR ''/'' # b) = splitSlash a @ splitSlash b"
proof (induction a)
  case Nil
  show ?case by simp
next
  case (Cons c a)
  obtain e es where s: "splitSlash a = e # es"
    using splitSlash_nonempty [of a] by (cases "splitSlash a") auto
  show ?case using Cons s by simp
qed

lemma joinSlash_Cons: "es \<noteq> [] \<Longrightarrow> joinSlash (e # es) = e @ CHR ''/'' # joinSlash es"
  by (cases es) auto

lemma joinSlash_push: "joinSlash ((c # e) # es) = c # joinSlash (e # es)"
  by (cases es) auto

lemma joinSlash_splitSlash: "joinSlash (splitSlash p) = p"
proof (induction p)
  case Nil
  show ?case by simp
next
  case (Cons c p)
  obtain e es where s: "splitSlash p = e # es"
    using splitSlash_nonempty [of p] by (cases "splitSlash p") auto
  show ?case
  proof (cases "c = CHR ''/''")
    case True
    then show ?thesis using Cons splitSlash_nonempty [of p] by (simp add: joinSlash_Cons)
  next
    case False
    then show ?thesis using Cons s by (simp add: joinSlash_push)
  qed
qed

lemma joinSlash_snoc: "es \<noteq> [] \<Longrightarrow> joinSlash (es @ [a]) = joinSlash es @ CHR ''/'' # a"
proof (induction es)
  case Nil
  then show ?case by simp
next
  case (Cons e es)
  show ?case
  proof (cases "es = []")
    case True
    then show ?thesis by simp
  next
    case False
    then show ?thesis using Cons by (simp add: joinSlash_Cons)
  qed
qed

lemma cleanElems_plain:
  "list_all plainElem es \<Longrightarrow> cleanElems rooted out es = rev out @ es"
  by (induction es arbitrary: out) (auto simp: plainElem_def)

text \<open>
  Under a plain directory, \<open>path.Join\<close> of two names is the directory, a slash, the
  first name, a slash and the second name.
\<close>

lemma Join_plain:
  assumes d: "plainPath d" and a: "plainElem a" and b: "plainElem b"
  shows "Join [d, a, b] = d @ ''/'' @ a @ ''/'' @ b"
proof -
  let ?d = "if hd d = CHR ''/'' then tl d else d"
  let ?es = "splitSlash ?d"
  have ne: "d \<noteq> []" and pl: "list_all plainElem ?es"
    using d by (simp_all add: plainPath_def)
  have na: "CHR ''/'' \<notin> set a" and nb: "CHR ''/'' \<notin> set b"
    using a b by (simp_all add: plainElem_def)
  have sp: "splitSlash (?d @ CHR ''/'' # a @ CHR ''/'' # b) = ?es @ [a, b]"
    by (simp only: splitSlash_append splitSlash_noslash [OF na] splitSlash_noslash [OF nb]) simp
  have all: "list_all plainElem (?es @ [a, b])"
    using pl a b by simp
  have "joinSlash (?es @ [a, b]) = joinSlash ((?es @ [a]) @ [b])" by simp
  also have "\<dots> = joinSlash (?es @ [a]) @ CHR ''/'' # b"
    by (rule joinSlash_snoc) simp
  also have "\<dots> = (joinSlash ?es @ CHR ''/'' # a) @ CHR ''/'' # b"
    using joinSlash_snoc [OF splitSlash_nonempty [of ?d], of a] by simp
  finally have body: "joinSlash (?es @ [a, b]) = ?d @ CHR ''/'' # a @ CHR ''/'' # b"
    by (simp only: joinSlash_splitSlash) simp
  have j: "Join [d, a, b] = Clean (d @ CHR ''/'' # a @ CHR ''/'' # b)"
    using ne by (simp add: Join_def split: list.splits)
  show ?thesis
  proof (cases "hd d = CHR ''/''")
    case True
    then have dd: "d = CHR ''/'' # tl d" using ne by (cases d) auto
    have "Clean (CHR ''/'' # (tl d @ CHR ''/'' # a @ CHR ''/'' # b))
          = CHR ''/'' # joinSlash (cleanElems True [] (splitSlash (tl d @ CHR ''/'' # a @ CHR ''/'' # b)))"
      by (simp add: Clean_def)
    also have "\<dots> = CHR ''/'' # (tl d @ CHR ''/'' # a @ CHR ''/'' # b)"
      using sp all body True by (simp add: cleanElems_plain)
    finally show ?thesis
      unfolding j by (subst (1 2) dd) simp
  next
    case False
    then have h: "hd (d @ CHR ''/'' # a @ CHR ''/'' # b) \<noteq> CHR ''/''" using ne by simp
    have "Clean (d @ CHR ''/'' # a @ CHR ''/'' # b)
          = joinSlash (cleanElems False [] (splitSlash (d @ CHR ''/'' # a @ CHR ''/'' # b)))"
      using sp all body False h ne by (simp add: Clean_def cleanElems_plain)
    also have "\<dots> = d @ CHR ''/'' # a @ CHR ''/'' # b"
      using sp all body False by (simp add: cleanElems_plain)
    finally show ?thesis
      unfolding j by simp
  qed
qed

lemma hexDigit_not_slash: "k < 16 \<Longrightarrow> hexDigit k \<noteq> CHR ''/''"
proof -
  assume "k < 16"
  then have "k = 0 \<or> k = 1 \<or> k = 2 \<or> k = 3 \<or> k = 4 \<or> k = 5 \<or> k = 6 \<or> k = 7 \<or>
             k = 8 \<or> k = 9 \<or> k = 10 \<or> k = 11 \<or> k = 12 \<or> k = 13 \<or> k = 14 \<or> k = 15"
    by arith
  then show ?thesis by (auto simp: hexDigit_def)
qed

lemma hexEncodeToString_no_slash: "CHR ''/'' \<notin> set (hexEncodeToString h)"
proof (induction h)
  case Nil
  show ?case by (simp add: hexEncodeToString_def)
next
  case (Cons c h)
  have "(of_char c :: nat) < 256" by simp
  then have "(of_char c :: nat) div 16 < 16" by arith
  then have hi: "hexDigit ((of_char c :: nat) div 16) \<noteq> CHR ''/''"
    by (rule hexDigit_not_slash)
  have lo: "hexDigit ((of_char c :: nat) mod 16) \<noteq> CHR ''/''"
    by (rule hexDigit_not_slash) simp
  have "hexEncodeToString (c # h) =
          hexDigit ((of_char c :: nat) div 16) # hexDigit ((of_char c :: nat) mod 16) # hexEncodeToString h"
    by (simp add: hexEncodeToString_def)
  then show ?case using Cons hi lo by auto
qed

lemma crash_name_plain: "plainElem (hexEncodeToString h @ ''.raw'')"
proof -
  have "length (hexEncodeToString h @ ''.raw'') \<noteq> length ''.''"
    and "length (hexEncodeToString h @ ''.raw'') \<noteq> length ''..''"
    by simp_all
  then have "hexEncodeToString h @ ''.raw'' \<noteq> ''.''" and "hexEncodeToString h @ ''.raw'' \<noteq> ''..''"
    by fastforce+
  then show ?thesis
    using hexEncodeToString_no_slash [of h] by (simp add: plainElem_def)
qed

lemma crashes_plain: "plainElem ''crashes''"
  by (simp add: plainElem_def)

section \<open>The main loop: proofs\<close>

lemma getTest_candidate:
  assumes "net s (''tcp'', ''127.0.0.1:4141'') = Some (Conn raw True) # q"
  shows "getTest e s =
           Ret (raw, sha1 e raw)
             (s\<lparr>trace := trace s @ [Dial ''tcp'' ''127.0.0.1:4141''],
                net := (net s)((''tcp'', ''127.0.0.1:4141'') := q)\<rparr>)"
  using assms by (simp add: getTest_def netDial_def emit_def)

text \<open>
  C7. A candidate of more than \<open>MAXLEN\<close> bytes ends the pass right after it has been
  read: the pass returns to the loop, and the state differs only in the connection
  taken from the generator and the dial recorded. Nothing is sent to the fixer,
  nothing is written, the target is not run, \<open>count\<close> is unchanged and nothing is
  logged; the loop goes on with the next candidate.
\<close>

theorem oversized_candidate_skipped:
  "net s (''tcp'', ''127.0.0.1:4141'') = Some (Conn raw True) # q \<and> int (length raw) > MAXLEN \<Longrightarrow>
   iteration cfg e testCmd s =
     Ret () (s\<lparr>trace := trace s @ [Dial ''tcp'' ''127.0.0.1:4141''],
               net := (net s)((''tcp'', ''127.0.0.1:4141'') := q)\<rparr>) \<and>
   mainLoop cfg e testCmd (Suc n) s =
     mainLoop cfg e testCmd n
       (s\<lparr>trace := trace s @ [Dial ''tcp'' ''127.0.0.1:4141''],
          net := (net s)((''tcp'', ''127.0.0.1:4141'') := q)\<rparr>)"
proof -
  assume a: "net s (''tcp'', ''127.0.0.1:4141'') = Some (Conn raw True) # q \<and> int (length raw) > MAXLEN"
  then have g: "net s (''tcp'', ''127.0.0.1:4141'') = Some (Conn raw True) # q"
    and l: "int (length raw) > MAXLEN" by simp_all
  have i: "iteration cfg e testCmd s =
     Ret () (s\<lparr>trace := trace s @ [Dial ''tcp'' ''127.0.0.1:4141''],
               net := (net s)((''tcp'', ''127.0.0.1:4141'') := q)\<rparr>)"
    using l by (simp add: iteration_def getTest_candidate [OF g])
  then show ?thesis by simp
qed

theorem oversized_candidate_skipped_witness:
  "net (plainState\<lparr>net := (\<lambda>k. [Some (Conn (replicate 11534336 CHR ''A'') True)])\<rparr>)
       (''tcp'', ''127.0.0.1:4141'') = Some (Conn (replicate 11534336 CHR ''A'') True) # [] \<and>
   int (length (replicate 11534336 CHR ''A'')) > MAXLEN \<and>
   iteration exampleCfg exampleEnv exampleCmd
       (plainState\<lparr>net := (\<lambda>k. [Some (Conn (replicate 11534336 CHR ''A'') True)])\<rparr>) =
     Ret () \<lparr>net = (\<lambda>k. [Some (Conn (replicate 11534336 CHR ''A'') True)])
                    ((''tcp'', ''127.0.0.1:4141'') := []),
             trace = [Dial ''tcp'' ''127.0.0.1:4141''], count = 0, fixConn = None\<rparr>"
proof -
  let ?s = "plainState\<lparr>net := (\<lambda>k. [Some (Conn (replicate 11534336 CHR ''A'') True)])\<rparr>"
  have h: "net ?s (''tcp'', ''127.0.0.1:4141'') = Some (Conn (replicate 11534336 CHR ''A'') True) # [] \<and>
           int (length (replicate 11534336 CHR ''A'')) > MAXLEN"
    by (simp add: MAXLEN_def)
  have "iteration exampleCfg exampleEnv exampleCmd ?s =
     Ret () (?s\<lparr>trace := trace ?s @ [Dial ''tcp'' ''127.0.0.1:4141''],
               net := (net ?s)((''tcp'', ''127.0.0.1:4141'') := [])\<rparr>)"
    using oversized_candidate_skipped [OF h, of exampleCfg exampleEnv exampleCmd 0] by blast
  then show ?thesis using h by (simp add: plainState_def)
qed

text \<open>
  A pass in which the candidate is within the limit, the fixer (if there is one)
  replies with a frame, the staged file is written and the target crashes: what is
  left is the write of the crash file.
\<close>

lemma iteration_crash:
  assumes g: "net s (''tcp'', ''127.0.0.1:4141'') = Some (Conn raw True) # q"
    and l: "int (length raw) \<le> MAXLEN"
    and f: "(fixConn s = None \<and> staged = raw \<and> fc1 = None) \<or>
            (\<exists>fc r. fixConn s = Some fc \<and> fixTest raw fc = (Ok staged, r) \<and> fc1 = Some r)"
    and w: "\<not> writeFails e (Join [flagDestDir cfg, flagFn cfg])"
    and r: "francisRun e testCmd
              (trace s @ [Dial ''tcp'' ''127.0.0.1:4141'',
                          WriteFile (Join [flagDestDir cfg, flagFn cfg]) staged True]) = Crash (x # xs)"
  shows "iteration cfg e testCmd s =
           saveTest cfg e (hexEncodeToString (sha1 e raw) @ ''.raw'') staged
             (s\<lparr>trace := trace s @
                    [Dial ''tcp'' ''127.0.0.1:4141'',
                     WriteFile (Join [flagDestDir cfg, flagFn cfg]) staged True,
                     RunTarget testCmd,
                     LogPrintf ''[HAPPY] Crash! - %s'' [StrArg x]],
                net := (net s)((''tcp'', ''127.0.0.1:4141'') := q),
                fixConn := fc1,
                count := wrap64 (count s + 1)\<rparr>)"
  using f
proof
  assume a: "fixConn s = None \<and> staged = raw \<and> fc1 = None"
  show ?thesis
    using l w r a
    apply (simp add: iteration_def getTest_candidate [OF g] stageTest_def ioWriteFile_def emit_def)
    apply (rule arg_cong [of _ _ "saveTest cfg e (hexEncodeToString (sha1 e raw) @ ''.raw'') raw"])
    apply (rule state.equality)
    apply simp_all
    done
next
  assume "\<exists>fc r. fixConn s = Some fc \<and> fixTest raw fc = (Ok staged, r) \<and> fc1 = Some r"
  then obtain fc r0 where a: "fixConn s = Some fc" "fixTest raw fc = (Ok staged, r0)" "fc1 = Some r0"
    by blast
  show ?thesis
    using l w r a
    apply (simp add: iteration_def getTest_candidate [OF g] stageTest_def ioWriteFile_def emit_def)
    apply (rule arg_cong [of _ _ "saveTest cfg e (hexEncodeToString (sha1 e raw) @ ''.raw'') staged"])
    apply (rule state.equality)
    apply simp_all
    done
qed

lemma saveTest_written:
  "\<not> writeFails e (Join [flagDestDir cfg, ''crashes'', fn]) \<Longrightarrow>
   saveTest cfg e fn raw s =
     Ret () (s\<lparr>trace := trace s @ [WriteFile (Join [flagDestDir cfg, ''crashes'', fn]) raw True]\<rparr>)"
  by (simp add: saveTest_def ioWriteFile_def emit_def)

text \<open>
  C1 as stated fails: with a fixer that answers the candidate \<open>A\<close>
  with \<open>AAAA\<close> and a target that crashes, the crash file holds \<open>AAAA\<close>.
\<close>

theorem crash_record_is_raw_counterexample:
  "net fixerState (''tcp'', ''127.0.0.1:4141'') = [Some (Conn ''A'' True)] \<and>
   fixConn fixerState = Some \<lparr>unread = ''4:AAAA,'', sent = []\<rparr> \<and>
   fileWrites (trace (stateOf (iteration fixerCfg exampleEnv exampleCmd fixerState))) =
     [(''/w/.cur_input'', ''AAAA''), (''/w/crashes/41.raw'', ''AAAA'')] \<and>
   ''AAAA'' \<noteq> ''A''"
  by (simp add: fixerState_def localGen_def fixerCfg_def exampleEnv_def exampleCmd_def
        iteration_def getTest_def netDial_def emit_def fixTest_def encodeNetString_def
        readNetString_def ParseInt_def ParseUint_def isDigit_def digitVal_def IntSize_def
        maxUint64_def MAXLEN_def stageTest_def saveTest_def ioWriteFile_def Join_def Clean_def
        hexEncodeToString_def hexDigit_def wrap64_def)

text \<open>
  C1, amended. In a pass whose candidate is within the limit and whose target
  crashes, the crash file holds the bytes that were staged and run: the candidate
  itself when there is no fixer, the fixer's reply when there is one.
\<close>

theorem crash_record_holds_staged_bytes:
  "net s (''tcp'', ''127.0.0.1:4141'') = Some (Conn raw True) # q \<Longrightarrow>
   int (length raw) \<le> MAXLEN \<Longrightarrow>
   (fixConn s = None \<and> staged = raw) \<or>
     (\<exists>fc r. fixConn s = Some fc \<and> fixTest raw fc = (Ok staged, r)) \<Longrightarrow>
   \<not> writeFails e (Join [flagDestDir cfg, flagFn cfg]) \<Longrightarrow>
   \<not> writeFails e (Join [flagDestDir cfg, ''crashes'', hexEncodeToString (sha1 e raw) @ ''.raw'']) \<Longrightarrow>
   francisRun e testCmd
     (trace s @ [Dial ''tcp'' ''127.0.0.1:4141'',
                 WriteFile (Join [flagDestDir cfg, flagFn cfg]) staged True]) = Crash (x # xs) \<Longrightarrow>
   fileWrites (drop (length (trace s)) (trace (stateOf (iteration cfg e testCmd s)))) =
     [(Join [flagDestDir cfg, flagFn cfg], staged),
      (Join [flagDestDir cfg, ''crashes'', hexEncodeToString (sha1 e raw) @ ''.raw''], staged)]"
proof -
  assume g: "net s (''tcp'', ''127.0.0.1:4141'') = Some (Conn raw True) # q"
    and l: "int (length raw) \<le> MAXLEN"
    and f: "(fixConn s = None \<and> staged = raw) \<or>
            (\<exists>fc r. fixConn s = Some fc \<and> fixTest raw fc = (Ok staged, r))"
    and w: "\<not> writeFails e (Join [flagDestDir cfg, flagFn cfg])"
    and c: "\<not> writeFails e (Join [flagDestDir cfg, ''crashes'', hexEncodeToString (sha1 e raw) @ ''.raw''])"
    and r: "francisRun e testCmd
              (trace s @ [Dial ''tcp'' ''127.0.0.1:4141'',
                          WriteFile (Join [flagDestDir cfg, flagFn cfg]) staged True]) = Crash (x # xs)"
  from f obtain fc1 where
    f1: "(fixConn s = None \<and> staged = raw \<and> fc1 = None) \<or>
         (\<exists>fc r. fixConn s = Some fc \<and> fixTest raw fc = (Ok staged, r) \<and> fc1 = Some r)"
    by blast
  show ?thesis
    by (simp add: iteration_crash [OF g l f1 w r] saveTest_written [OF c])
qed

theorem crash_record_holds_staged_bytes_witness:
  "net fixerState (''tcp'', ''127.0.0.1:4141'') = Some (Conn ''A'' True) # [] \<and>
   int (length ''A'') \<le> MAXLEN \<and>
   fixConn fixerState = Some \<lparr>unread = ''4:AAAA,'', sent = []\<rparr> \<and>
   fixTest ''A'' \<lparr>unread = ''4:AAAA,'', sent = []\<rparr> = (Ok ''AAAA'', \<lparr>unread = [], sent = ''1:A,''\<rparr>) \<and>
   \<not> writeFails exampleEnv (Join [flagDestDir fixerCfg, flagFn fixerCfg]) \<and>
   \<not> writeFails exampleEnv
       (Join [flagDestDir fixerCfg, ''crashes'', hexEncodeToString (sha1 exampleEnv ''A'') @ ''.raw'']) \<and>
   fileWrites (trace (stateOf (iteration fixerCfg exampleEnv exampleCmd fixerState))) =
     [(''/w/.cur_input'', ''AAAA''), (''/w/crashes/41.raw'', ''AAAA'')]"
proof -
  have g: "net fixerState (''tcp'', ''127.0.0.1:4141'') = Some (Conn ''A'' True) # []"
    by (simp add: fixerState_def localGen_def)
  have l: "int (length ''A'') \<le> MAXLEN" by (simp add: MAXLEN_def)
  have fc: "fixConn fixerState = Some \<lparr>unread = ''4:AAAA,'', sent = []\<rparr>"
    by (simp add: fixerState_def)
  have ft: "fixTest ''A'' \<lparr>unread = ''4:AAAA,'', sent = []\<rparr>
              = (Ok ''AAAA'', \<lparr>unread = [], sent = ''1:A,''\<rparr>)"
    by (simp add: fixTest_def encodeNetString_def itoa.simps digitChar_def readNetString_def
          ParseInt_def ParseUint_def isDigit_def digitVal_def IntSize_def maxUint64_def MAXLEN_def)
  have f: "(fixConn fixerState = None \<and> ''AAAA'' = ''A'') \<or>
           (\<exists>fc r. fixConn fixerState = Some fc \<and> fixTest ''A'' fc = (Ok ''AAAA'', r))"
    using fc ft by blast
  have w: "\<not> writeFails exampleEnv (Join [flagDestDir fixerCfg, flagFn fixerCfg])"
    by (simp add: exampleEnv_def)
  have c: "\<not> writeFails exampleEnv
       (Join [flagDestDir fixerCfg, ''crashes'', hexEncodeToString (sha1 exampleEnv ''A'') @ ''.raw''])"
    by (simp add: exampleEnv_def)
  have r: "francisRun exampleEnv exampleCmd
     (trace fixerState @ [Dial ''tcp'' ''127.0.0.1:4141'',
                 WriteFile (Join [flagDestDir fixerCfg, flagFn fixerCfg]) ''AAAA'' True])
       = Crash (''SIGSEGV'' # [])"
    by (simp add: exampleEnv_def)
  have t: "trace fixerState = []" by (simp add: fixerState_def)
  have p: "Join [flagDestDir fixerCfg, flagFn fixerCfg] = ''/w/.cur_input''"
    "Join [flagDestDir fixerCfg, ''crashes'', hexEncodeToString (sha1 exampleEnv ''A'') @ ''.raw'']
       = ''/w/crashes/41.raw''"
    by (simp_all add: fixerCfg_def exampleEnv_def Join_def Clean_def hexEncodeToString_def hexDigit_def)
  have "fileWrites (trace (stateOf (iteration fixerCfg exampleEnv exampleCmd fixerState))) =
     [(''/w/.cur_input'', ''AAAA''), (''/w/crashes/41.raw'', ''AAAA'')]"
    using crash_record_holds_staged_bytes [OF g l f w c r] unfolding t p by simp
  then show ?thesis using g l fc ft w c by blast
qed

text \<open>
  C2. In a pass whose candidate is within the limit and whose target crashes, the
  last thing the pass does is to write the staged bytes to \<open>path.Join(dest,
  "crashes", name)\<close>, where \<open>name\<close> is the hexadecimal form of the hash of the bytes
  the generator sent, followed by \<open>.raw\<close>: with a fixer and without one. For a
  plain \<open>dest\<close> that path is \<open><dest>/crashes/<name>\<close>.
\<close>

theorem crash_record_path:
  "net s (''tcp'', ''127.0.0.1:4141'') = Some (Conn raw True) # q \<Longrightarrow>
   int (length raw) \<le> MAXLEN \<Longrightarrow>
   (fixConn s = None \<and> staged = raw) \<or>
     (\<exists>fc r. fixConn s = Some fc \<and> fixTest raw fc = (Ok staged, r)) \<Longrightarrow>
   \<not> writeFails e (Join [flagDestDir cfg, flagFn cfg]) \<Longrightarrow>
   \<not> writeFails e (Join [flagDestDir cfg, ''crashes'', hexEncodeToString (sha1 e raw) @ ''.raw'']) \<Longrightarrow>
   francisRun e testCmd
     (trace s @ [Dial ''tcp'' ''127.0.0.1:4141'',
                 WriteFile (Join [flagDestDir cfg, flagFn cfg]) staged True]) = Crash (x # xs) \<Longrightarrow>
   (\<exists>s1. iteration cfg e testCmd s = Ret () s1 \<and>
      last (trace s1) =
        WriteFile (Join [flagDestDir cfg, ''crashes'', hexEncodeToString (sha1 e raw) @ ''.raw''])
          staged True) \<and>
   (plainPath (flagDestDir cfg) \<longrightarrow>
      Join [flagDestDir cfg, ''crashes'', hexEncodeToString (sha1 e raw) @ ''.raw''] =
        flagDestDir cfg @ ''/crashes/'' @ hexEncodeToString (sha1 e raw) @ ''.raw'')"
proof -
  assume g: "net s (''tcp'', ''127.0.0.1:4141'') = Some (Conn raw True) # q"
    and l: "int (length raw) \<le> MAXLEN"
    and f: "(fixConn s = None \<and> staged = raw) \<or>
            (\<exists>fc r. fixConn s = Some fc \<and> fixTest raw fc = (Ok staged, r))"
    and w: "\<not> writeFails e (Join [flagDestDir cfg, flagFn cfg])"
    and c: "\<not> writeFails e (Join [flagDestDir cfg, ''crashes'', hexEncodeToString (sha1 e raw) @ ''.raw''])"
    and r: "francisRun e testCmd
              (trace s @ [Dial ''tcp'' ''127.0.0.1:4141'',
                          WriteFile (Join [flagDestDir cfg, flagFn cfg]) staged True]) = Crash (x # xs)"
  from f obtain fc1 where
    f1: "(fixConn s = None \<and> staged = raw \<and> fc1 = None) \<or>
         (\<exists>fc r. fixConn s = Some fc \<and> fixTest raw fc = (Ok staged, r) \<and> fc1 = Some r)"
    by blast
  have a: "\<exists>s1. iteration cfg e testCmd s = Ret () s1 \<and>
      last (trace s1) =
        WriteFile (Join [flagDestDir cfg, ''crashes'', hexEncodeToString (sha1 e raw) @ ''.raw''])
          staged True"
    by (simp add: iteration_crash [OF g l f1 w r] saveTest_written [OF c])
  have b: "plainPath (flagDestDir cfg) \<longrightarrow>
      Join [flagDestDir cfg, ''crashes'', hexEncodeToString (sha1 e raw) @ ''.raw''] =
        flagDestDir cfg @ ''/crashes/'' @ hexEncodeToString (sha1 e raw) @ ''.raw''"
    using Join_plain [OF _ crashes_plain crash_name_plain] by simp
  from a b show ?thesis by blast
qed

theorem crash_record_path_witness:
  "net plainState (''tcp'', ''127.0.0.1:4141'') = Some (Conn ''A'' True) # [] \<and>
   int (length ''A'') \<le> MAXLEN \<and>
   fixConn plainState = None \<and>
   \<not> writeFails exampleEnv (Join [flagDestDir exampleCfg, flagFn exampleCfg]) \<and>
   \<not> writeFails exampleEnv
       (Join [flagDestDir exampleCfg, ''crashes'', hexEncodeToString (sha1 exampleEnv ''A'') @ ''.raw'']) \<and>
   plainPath (flagDestDir exampleCfg) \<and>
   (\<exists>s1. iteration exampleCfg exampleEnv exampleCmd plainState = Ret () s1 \<and>
      last (trace s1) = WriteFile ''/w/crashes/41.raw'' ''A'' True)"
proof -
  have g: "net plainState (''tcp'', ''127.0.0.1:4141'') = Some (Conn ''A'' True) # []"
    by (simp add: plainState_def localGen_def)
  have l: "int (length ''A'') \<le> MAXLEN" by (simp add: MAXLEN_def)
  have fc: "fixConn plainState = None" by (simp add: plainState_def)
  have f: "(fixConn plainState = None \<and> ''A'' = ''A'') \<or>
           (\<exists>fc r. fixConn plainState = Some fc \<and> fixTest ''A'' fc = (Ok ''A'', r))"
    using fc by simp
  have w: "\<not> writeFails exampleEnv (Join [flagDestDir exampleCfg, flagFn exampleCfg])"
    by (simp add: exampleEnv_def)
  have c: "\<not> writeFails exampleEnv
       (Join [flagDestDir exampleCfg, ''crashes'', hexEncodeToString (sha1 exampleEnv ''A'') @ ''.raw''])"
    by (simp add: exampleEnv_def)
  have r: "francisRun exampleEnv exampleCmd
     (trace plainState @ [Dial ''tcp'' ''127.0.0.1:4141'',
                 WriteFile (Join [flagDestDir exampleCfg, flagFn exampleCfg]) ''A'' True])
       = Crash (''SIGSEGV'' # [])"
    by (simp add: exampleEnv_def)
  have pp: "plainPath (flagDestDir exampleCfg)"
    by (simp add: exampleCfg_def plainPath_def plainElem_def)
  have n: "flagDestDir exampleCfg @ ''/crashes/'' @ hexEncodeToString (sha1 exampleEnv ''A'') @ ''.raw''
             = ''/w/crashes/41.raw''"
    by (simp add: exampleCfg_def exampleEnv_def hexEncodeToString_def hexDigit_def)
  have "\<exists>s1. iteration exampleCfg exampleEnv exampleCmd plainState = Ret () s1 \<and>
      last (trace s1) = WriteFile ''/w/crashes/41.raw'' ''A'' True"
    using crash_record_path [OF g l f w c r] pp n by metis
  then show ?thesis using g l fc w c pp by blast
qed

lemma saveTest_failed:
  "writeFails e (Join [flagDestDir cfg, ''crashes'', fn]) \<Longrightarrow>
   saveTest cfg e fn raw s =
     Fatal (s\<lparr>trace := trace s @
              [WriteFile (Join [flagDestDir cfg, ''crashes'', fn]) raw False,
               LogPrintf ''[SUPER SAD] failed to write crashfile!: %s'' [ErrArg WriteError],
               LogFatalf ''[SUPER SAD] (that hexdump was the last test)'' []]\<rparr>)"
  by (simp add: saveTest_def ioWriteFile_def emit_def)

text \<open>
  C9. When the target crashes and the write of the crash file fails, the pass logs
  the failure and ends the process with \<open>log.Fatalf\<close>, and the loop with it,
  however many passes were still to come. Between the failed write and the end there
  are the two log lines and nothing else: no dump of the candidate's bytes is
  emitted.
\<close>

theorem failed_crash_write_fatal_without_dump:
  "net s (''tcp'', ''127.0.0.1:4141'') = Some (Conn raw True) # q \<Longrightarrow>
   int (length raw) \<le> MAXLEN \<Longrightarrow>
   (fixConn s = None \<and> staged = raw) \<or>
     (\<exists>fc r. fixConn s = Some fc \<and> fixTest raw fc = (Ok staged, r)) \<Longrightarrow>
   \<not> writeFails e (Join [flagDestDir cfg, flagFn cfg]) \<Longrightarrow>
   writeFails e (Join [flagDestDir cfg, ''crashes'', hexEncodeToString (sha1 e raw) @ ''.raw'']) \<Longrightarrow>
   francisRun e testCmd
     (trace s @ [Dial ''tcp'' ''127.0.0.1:4141'',
                 WriteFile (Join [flagDestDir cfg, flagFn cfg]) staged True]) = Crash (x # xs) \<Longrightarrow>
   (\<exists>s1. iteration cfg e testCmd s = Fatal s1 \<and>
      mainLoop cfg e testCmd (Suc n) s = Fatal s1 \<and>
      trace s1 = trace s @
        [Dial ''tcp'' ''127.0.0.1:4141'',
         WriteFile (Join [flagDestDir cfg, flagFn cfg]) staged True,
         RunTarget testCmd,
         LogPrintf ''[HAPPY] Crash! - %s'' [StrArg x],
         WriteFile (Join [flagDestDir cfg, ''crashes'', hexEncodeToString (sha1 e raw) @ ''.raw''])
           staged False,
         LogPrintf ''[SUPER SAD] failed to write crashfile!: %s'' [ErrArg WriteError],
         LogFatalf ''[SUPER SAD] (that hexdump was the last test)'' []])"
proof -
  assume g: "net s (''tcp'', ''127.0.0.1:4141'') = Some (Conn raw True) # q"
    and l: "int (length raw) \<le> MAXLEN"
    and f: "(fixConn s = None \<and> staged = raw) \<or>
            (\<exists>fc r. fixConn s = Some fc \<and> fixTest raw fc = (Ok staged, r))"
    and w: "\<not> writeFails e (Join [flagDestDir cfg, flagFn cfg])"
    and c: "writeFails e (Join [flagDestDir cfg, ''crashes'', hexEncodeToString (sha1 e raw) @ ''.raw''])"
    and r: "francisRun e testCmd
              (trace s @ [Dial ''tcp'' ''127.0.0.1:4141'',
                          WriteFile (Join [flagDestDir cfg, flagFn cfg]) staged True]) = Crash (x # xs)"
  from f obtain fc1 where
    f1: "(fixConn s = None \<and> staged = raw \<and> fc1 = None) \<or>
         (\<exists>fc r. fixConn s = Some fc \<and> fixTest raw fc = (Ok staged, r) \<and> fc1 = Some r)"
    by blast
  have i: "\<exists>s1. iteration cfg e testCmd s = Fatal s1 \<and>
      trace s1 = trace s @
        [Dial ''tcp'' ''127.0.0.1:4141'',
         WriteFile (Join [flagDestDir cfg, flagFn cfg]) staged True,
         RunTarget testCmd,
         LogPrintf ''[HAPPY] Crash! - %s'' [StrArg x],
         WriteFile (Join [flagDestDir cfg, ''crashes'', hexEncodeToString (sha1 e raw) @ ''.raw''])
           staged False,
         LogPrintf ''[SUPER SAD] failed to write crashfile!: %s'' [ErrArg WriteError],
         LogFatalf ''[SUPER SAD] (that hexdump was the last test)'' []]"
    by (simp add: iteration_crash [OF g l f1 w r] saveTest_failed [OF c])
  then obtain s1 where a: "iteration cfg e testCmd s = Fatal s1" by blast
  have "mainLoop cfg e testCmd (Suc n) s = Fatal s1"
    using a by simp
  then show ?thesis using i a by auto
qed

theorem failed_crash_write_fatal_without_dump_witness:
  "net plainState (''tcp'', ''127.0.0.1:4141'') = Some (Conn ''A'' True) # [] \<and>
   int (length ''A'') \<le> MAXLEN \<and>
   fixConn plainState = None \<and>
   \<not> writeFails fullDiskEnv (Join [flagDestDir exampleCfg, flagFn exampleCfg]) \<and>
   writeFails fullDiskEnv
     (Join [flagDestDir exampleCfg, ''crashes'', hexEncodeToString (sha1 fullDiskEnv ''A'') @ ''.raw'']) \<and>
   (\<exists>s1. mainLoop exampleCfg fullDiskEnv exampleCmd (Suc (Suc (Suc 0))) plainState = Fatal s1 \<and>
      trace s1 =
        [Dial ''tcp'' ''127.0.0.1:4141'',
         WriteFile ''/w/.cur_input'' ''A'' True,
         RunTarget exampleCmd,
         LogPrintf ''[HAPPY] Crash! - %s'' [StrArg ''SIGSEGV''],
         WriteFile ''/w/crashes/41.raw'' ''A'' False,
         LogPrintf ''[SUPER SAD] failed to write crashfile!: %s'' [ErrArg WriteError],
         LogFatalf ''[SUPER SAD] (that hexdump was the last test)'' []])"
proof -
  have g: "net plainState (''tcp'', ''127.0.0.1:4141'') = Some (Conn ''A'' True) # []"
    by (simp add: plainState_def localGen_def)
  have l: "int (length ''A'') \<le> MAXLEN" by (simp add: MAXLEN_def)
  have fc: "fixConn plainState = None" by (simp add: plainState_def)
  have f: "(fixConn plainState = None \<and> ''A'' = ''A'') \<or>
           (\<exists>fc r. fixConn plainState = Some fc \<and> fixTest ''A'' fc = (Ok ''A'', r))"
    using fc by simp
  have p: "Join [flagDestDir exampleCfg, flagFn exampleCfg] = ''/w/.cur_input''"
    "Join [flagDestDir exampleCfg, ''crashes'', hexEncodeToString (sha1 fullDiskEnv ''A'') @ ''.raw'']
       = ''/w/crashes/41.raw''"
    by (simp_all add: exampleCfg_def fullDiskEnv_def Join_def Clean_def hexEncodeToString_def hexDigit_def)
  have w: "\<not> writeFails fullDiskEnv (Join [flagDestDir exampleCfg, flagFn exampleCfg])"
    unfolding p by (simp add: fullDiskEnv_def)
  have c: "writeFails fullDiskEnv
     (Join [flagDestDir exampleCfg, ''crashes'', hexEncodeToString (sha1 fullDiskEnv ''A'') @ ''.raw''])"
    unfolding p by (simp add: fullDiskEnv_def)
  have r: "francisRun fullDiskEnv exampleCmd
     (trace plainState @ [Dial ''tcp'' ''127.0.0.1:4141'',
                 WriteFile (Join [flagDestDir exampleCfg, flagFn exampleCfg]) ''A'' True])
       = Crash (''SIGSEGV'' # [])"
    by (simp add: fullDiskEnv_def)
  have t: "trace plainState = []" by (simp add: plainState_def)
  have "\<exists>s1. mainLoop exampleCfg fullDiskEnv exampleCmd (Suc (Suc (Suc 0))) plainState = Fatal s1 \<and>
      trace s1 =
        [Dial ''tcp'' ''127.0.0.1:4141'',
         WriteFile ''/w/.cur_input'' ''A'' True,
         RunTarget exampleCmd,
         LogPrintf ''[HAPPY] Crash! - %s'' [StrArg ''SIGSEGV''],
         WriteFile ''/w/crashes/41.raw'' ''A'' False,
         LogPrintf ''[SUPER SAD] failed to write crashfile!: %s'' [ErrArg WriteError],
         LogFatalf ''[SUPER SAD] (that hexdump was the last test)'' []]"
    using failed_crash_write_fatal_without_dump [OF g l f w c r, of "Suc (Suc 0)"]
    unfolding t p by auto
  then show ?thesis using g l fc w c by blast
qed

text \<open>What a decoded frame holds is at most \<open>MAXLEN\<close> bytes long.\<close>

lemma readNetString_Ok_bounded:
  "readNetString r = (Ok d, rest, made) \<Longrightarrow> int (length d) \<le> MAXLEN"
  by (auto simp: readNetString_def Let_def split: prod.splits if_splits list.splits)

lemma fixTest_Ok_bounded:
  "fixTest t fc = (Ok d, fc1) \<Longrightarrow> int (length d) \<le> MAXLEN"
  by (auto simp: fixTest_def Let_def split: prod.splits dest: readNetString_Ok_bounded)

lemma boundedWrites_append:
  "boundedWrites (xs @ ys) = (boundedWrites xs \<and> boundedWrites ys)"
proof -
  have "fileWrites (xs @ ys) = fileWrites xs @ fileWrites ys"
    by (induction xs rule: fileWrites.induct) simp_all
  then show ?thesis by (simp add: boundedWrites_def)
qed

text \<open>A pass only adds events, and every file it writes is within the limit.\<close>

lemma iteration_bounded:
  "\<exists>evs. trace (stateOf (iteration cfg e testCmd s)) = trace s @ evs \<and> boundedWrites evs"
proof -
  obtain c s1 where d: "netDial ''tcp'' ''127.0.0.1:4141'' s = (c, s1)"
    by (cases "netDial ''tcp'' ''127.0.0.1:4141'' s") auto
  then have t1: "trace s1 = trace s @ [Dial ''tcp'' ''127.0.0.1:4141'']"
    by (auto simp: netDial_def emit_def Let_def split: list.splits)
  show ?thesis
  proof (cases c)
    case None
    then show ?thesis using d t1
      by (simp add: iteration_def getTest_def emit_def boundedWrites_def)
  next
    case (Some cn)
    obtain raw ok where cn: "cn = Conn raw ok" by (cases cn) auto
    show ?thesis
    proof (cases "ok \<and> int (length raw) \<le> MAXLEN")
      case False
      then show ?thesis using d t1 Some cn
        by (auto simp: iteration_def getTest_def emit_def boundedWrites_def)
    next
      case True
      then have ok: "ok" and l: "int (length raw) \<le> MAXLEN" by simp_all
      have gt: "getTest e s = Ret (raw, sha1 e raw) s1"
        using d Some cn ok by (simp add: getTest_def)
      show ?thesis
      proof (cases "fixConn s1")
        case None
        show ?thesis using gt l None t1
          by (auto simp: iteration_def stageTest_def saveTest_def ioWriteFile_def emit_def
                boundedWrites_def Let_def split: run_result.splits list.splits bool.splits)
      next
        case (Some fc)
        obtain o1 fc1 where ft: "fixTest raw fc = (o1, fc1)" by (cases "fixTest raw fc") auto
        show ?thesis
        proof (cases o1)
          case (Ok fixed)
          then have fl: "int (length fixed) \<le> MAXLEN"
            using ft fixTest_Ok_bounded by blast
          show ?thesis using gt l Some ft Ok fl t1
            by (auto simp: iteration_def stageTest_def saveTest_def ioWriteFile_def emit_def
                  boundedWrites_def Let_def split: run_result.splits list.splits bool.splits)
        next
          case (Err er)
          then show ?thesis using gt l Some ft t1
            by (simp add: iteration_def emit_def boundedWrites_def)
        next
          case Panic
          then show ?thesis using gt l Some ft t1
            by (simp add: iteration_def boundedWrites_def)
        qed
      qed
    qed
  qed
qed

lemma mainLoop_bounded:
  "\<exists>evs. trace (stateOf (mainLoop cfg e testCmd n s)) = trace s @ evs \<and> boundedWrites evs"
proof (induction n arbitrary: s)
  case 0
  show ?case by (simp add: boundedWrites_def)
next
  case (Suc n)
  obtain evs where i: "trace (stateOf (iteration cfg e testCmd s)) = trace s @ evs"
    and b: "boundedWrites evs"
    using iteration_bounded by blast
  show ?case
  proof (cases "iteration cfg e testCmd s")
    case (Ret u s1)
    obtain evs1 where m: "trace (stateOf (mainLoop cfg e testCmd n s1)) = trace s1 @ evs1"
      and b1: "boundedWrites evs1"
      using Suc.IH by blast
    have "trace (stateOf (mainLoop cfg e testCmd (Suc n) s)) = trace s @ (evs @ evs1)"
      using Ret i m by simp
    moreover have "boundedWrites (evs @ evs1)"
      using b b1 by (simp add: boundedWrites_append)
    ultimately show ?thesis by blast
  next
    case (Fatal s1)
    then show ?thesis using i b by auto
  next
    case (Panicked s1)
    then show ?thesis using i b by auto
  qed
qed

text \<open>
  C10. However long the loop runs and however it ends, every content it writes to
  the staged file is at most \<open>MAXLEN\<close> bytes long.
\<close>

theorem staged_writes_bounded:
  "\<forall>d \<in> set (stagedWrites cfg
               (drop (length (trace s)) (trace (stateOf (mainLoop cfg e testCmd n s))))).
     int (length d) \<le> MAXLEN"
proof -
  obtain evs where t: "trace (stateOf (mainLoop cfg e testCmd n s)) = trace s @ evs"
    and b: "boundedWrites evs"
    using mainLoop_bounded by blast
  have "\<forall>w \<in> set (fileWrites evs). int (length (snd w)) \<le> MAXLEN"
    using b by (simp add: boundedWrites_def list_all_iff)
  then show ?thesis
    unfolding t by (auto simp: stagedWrites_def)
qed

theorem staged_writes_bounded_witness:
  "stagedWrites fixerCfg
     (drop (length (trace fixerState))
        (trace (stateOf (mainLoop fixerCfg exampleEnv exampleCmd (Suc (Suc 0)) fixerState))))
     = [''AAAA''] \<and>
   int (length ''AAAA'') \<le> MAXLEN"
proof -
  have m: "stagedWrites fixerCfg
     (drop (length (trace fixerState))
        (trace (stateOf (mainLoop fixerCfg exampleEnv exampleCmd (Suc (Suc 0)) fixerState))))
     = [''AAAA'']"
    by (simp add: fixerState_def localGen_def fixerCfg_def exampleEnv_def exampleCmd_def
        iteration_def getTest_def netDial_def emit_def fixTest_def encodeNetString_def
        readNetString_def ParseInt_def ParseUint_def isDigit_def digitVal_def IntSize_def
        maxUint64_def MAXLEN_def stageTest_def saveTest_def ioWriteFile_def Join_def Clean_def
        hexEncodeToString_def hexDigit_def wrap64_def stagedWrites_def)
  then have "''AAAA'' \<in> set (stagedWrites fixerCfg
     (drop (length (trace fixerState))
        (trace (stateOf (mainLoop fixerCfg exampleEnv exampleCmd (Suc (Suc 0)) fixerState)))))"
    by simp
  then have "int (length ''AAAA'') \<le> MAXLEN"
    by (rule staged_writes_bounded [rule_format])
  then show ?thesis using m by blast
qed

text \<open>
  Whatever the flags are, the first thing \<open>getTest\<close> does is to dial
  \<open>127.0.0.1:4141\<close>, and it dials nothing else.
\<close>

lemma getTest_dials_local:
  "\<exists>evs. trace (stateOf (getTest e s)) = trace s @ Dial ''tcp'' ''127.0.0.1:4141'' # evs \<and>
          dialled evs = []"
proof -
  obtain c s1 where d: "netDial ''tcp'' ''127.0.0.1:4141'' s = (c, s1)"
    by (cases "netDial ''tcp'' ''127.0.0.1:4141'' s") auto
  then have t1: "trace s1 = trace s @ [Dial ''tcp'' ''127.0.0.1:4141'']"
    by (auto simp: netDial_def emit_def Let_def split: list.splits)
  show ?thesis
  proof (cases c)
    case None
    then show ?thesis using d t1 by (simp add: getTest_def emit_def)
  next
    case (Some cn)
    then show ?thesis using d t1 by (cases cn) (simp add: getTest_def emit_def)
  qed
qed

text \<open>
  C8 fails for a remote generator. With \<open>-server 192.168.1.1:4141\<close> the startup
  check connects to that address and succeeds; the first \<open>getTest\<close> then dials
  \<open>127.0.0.1:4141\<close>, where nothing listens, and ends the process, while the
  candidate \<open>ABCD\<close> waits at the verified server.
\<close>

theorem getTest_ignores_server_flag:
  "srvAddr remoteCfg = ''192.168.1.1:4141'' \<and>
   (\<exists>s1 s2.
      connectServer remoteCfg remoteState = Some (Ret () s1) \<and>
      net s1 (''tcp'', ''192.168.1.1:4141'') = [Some (Conn ''ABCD'' True)] \<and>
      getTest exampleEnv s1 = Fatal s2 \<and>
      trace s2 =
        [Sleep 1000000, Dial ''tcp'' ''192.168.1.1:4141'',
         LogPrintf ''[HAPPY] radamsa server is running...'' [],
         Dial ''tcp'' ''127.0.0.1:4141'',
         LogFatalf ''[SAD] Unable to connect to radamsa server: %s'' [ErrArg DialError]] \<and>
      net s2 (''tcp'', ''192.168.1.1:4141'') = [Some (Conn ''ABCD'' True)])"
proof -
  have a: "srvAddr remoteCfg = ''192.168.1.1:4141''"
    by (simp add: srvAddr_def remoteCfg_def)
  have c: "connectServer remoteCfg remoteState =
        Some (Ret () (remoteState\<lparr>
          trace := [Sleep 1000000, Dial ''tcp'' ''192.168.1.1:4141'',
                    LogPrintf ''[HAPPY] radamsa server is running...'' []],
          net := remoteGen((''tcp'', ''192.168.1.1:4141'') := [Some (Conn ''ABCD'' True)])\<rparr>))"
    unfolding connectServer_def sleepyConnect_def a
    by (subst sleepyLoop.simps)
       (simp add: Millisecond_def Second_def netDial_def emit_def remoteState_def remoteGen_def)
  show ?thesis
    unfolding c a
    by (simp add: getTest_def netDial_def emit_def remoteState_def remoteGen_def)
qed


end
